theory Spec2Isabelle
  imports Complex_Main "HOL-Library.Log_Nat" "HOL-Library.Sublist"
begin

section \<open>Strings\<close>

text \<open>
  A Python \<open>str\<close> is modelled as a \<open>string\<close>: each \<open>char\<close> stands for the code point of
  the same number, so the model covers the texts whose code points are below 256.
  Within that range \<open>str.isspace\<close> (used by \<open>strip\<close> and by the pattern \<open>\s\<close>) holds for the
  code points 9 to 13, 28 to 31, 32, 133 and 160, and \<open>str.splitlines\<close> breaks a text at
  the code points 10 to 13, 28 to 30 and 133, a carriage return followed by a line feed
  counting as one break.
\<close>

definition NL :: char where
  "NL = CHR 0x0A"

definition CR :: char where
  "CR = CHR 0x0D"

definition DQ :: char where
  "DQ = CHR 0x22"

definition SQ :: char where
  "SQ = CHR 0x27"

definition whitespace_chars :: "char list" where
  "whitespace_chars = [CHR 0x09, CHR 0x0A, CHR 0x0B, CHR 0x0C, CHR 0x0D,
     CHR 0x1C, CHR 0x1D, CHR 0x1E, CHR 0x1F, CHR 0x20, CHR 0x85, CHR 0xA0]"

definition isspace :: "char \<Rightarrow> bool" where
  "isspace c = (c \<in> set whitespace_chars)"

definition linebreak_chars :: "char list" where
  "linebreak_chars = [CHR 0x0A, CHR 0x0B, CHR 0x0C, CHR 0x0D,
     CHR 0x1C, CHR 0x1D, CHR 0x1E, CHR 0x85]"

definition is_linebreak :: "char \<Rightarrow> bool" where
  "is_linebreak c = (c \<in> set linebreak_chars)"

definition isdigit :: "char \<Rightarrow> bool" where
  "isdigit c = (c \<in> set ''0123456789'')"

text \<open>\<open>s.strip()\<close>: the text without its leading and trailing whitespace.\<close>

definition strip :: "string \<Rightarrow> string" where
  "strip s = rev (dropWhile isspace (rev (dropWhile isspace s)))"

text \<open>
  \<open>s.splitlines()\<close>, scanning the text with the current line in \<open>cur\<close>: a line break closes
  the current line (an empty one too), and the end of the text closes it only when it
  is not empty.
\<close>

fun splitlines_from :: "string \<Rightarrow> string \<Rightarrow> string list" where
  "splitlines_from cur [] = (if cur = [] then [] else [cur])"
| "splitlines_from cur [c] =
     (if is_linebreak c then [cur] else [cur @ [c]])"
| "splitlines_from cur (c # d # s) =
     (if c = CR \<and> d = NL then cur # splitlines_from [] s
      else if is_linebreak c then cur # splitlines_from [] (d # s)
      else splitlines_from (cur @ [c]) (d # s))"

definition splitlines :: "string \<Rightarrow> string list" where
  "splitlines s = splitlines_from [] s"

text \<open>\<open>needle in s\<close> on strings: \<open>needle\<close> occurs in \<open>s\<close> as a contiguous piece.\<close>

fun contains :: "string \<Rightarrow> string \<Rightarrow> bool" where
  "contains needle [] = (needle = [])"
| "contains needle (c # s) = (prefix needle (c # s) \<or> contains needle s)"

text \<open>\<open>s.split(",")[0]\<close>: the text before the first comma (all of it when there is none).\<close>

definition first_part :: "string \<Rightarrow> string" where
  "first_part s = takeWhile (\<lambda>c. c \<noteq> CHR '','') s"

section \<open>Regular expressions\<close>

text \<open>
  The patterns of the program use literals, character classes, greedy and lazy
  repetition of a single character class, optional parts, alternatives and capturing
  groups; no group stands inside a repetition, an option or an alternative, and no
  group is nested, so the groups of a match are listed in the order of their opening
  parentheses.
\<close>

datatype cls =
    Space              \<comment> \<open>\<open>\s\<close>\<close>
  | Digit              \<comment> \<open>\<open>\d\<close>\<close>
  | AnyButNL           \<comment> \<open>\<open>.\<close> (without DOTALL)\<close>
  | OneOf string       \<comment> \<open>\<open>[...]\<close>\<close>
  | NoneOf string      \<comment> \<open>\<open>[^...]\<close>\<close>

fun in_cls :: "cls \<Rightarrow> char \<Rightarrow> bool" where
  "in_cls Space c = isspace c"
| "in_cls Digit c = isdigit c"
| "in_cls AnyButNL c = (c \<noteq> NL)"
| "in_cls (OneOf cs) c = (c \<in> set cs)"
| "in_cls (NoneOf cs) c = (c \<notin> set cs)"

datatype re =
    Lit string         \<comment> \<open>literal text\<close>
  | Sym cls            \<comment> \<open>one character of a class\<close>
  | Rep bool nat cls   \<comment> \<open>repetition of a class, at least \<open>n\<close> times; greedy when the flag is set\<close>
  | Opt re             \<comment> \<open>\<open>r?\<close>\<close>
  | Or re re           \<comment> \<open>\<open>r|s\<close>\<close>
  | Cat re re          \<comment> \<open>\<open>rs\<close>\<close>
  | Grp re             \<comment> \<open>\<open>(r)\<close>\<close>

text \<open>The lengths a repetition tries, in the order the backtracking matcher tries them.\<close>

definition rep_counts :: "bool \<Rightarrow> nat \<Rightarrow> nat \<Rightarrow> nat list" where
  "rep_counts greedy n k = (if greedy then rev [n..<Suc k] else [n..<Suc k])"

text \<open>
  \<open>ms r s\<close> lists every way \<open>r\<close> matches at the start of \<open>s\<close>, in the order in which a
  backtracking matcher finds them: the text matched, the groups captured, and the text
  left over. The first entry is the match Python reports.
\<close>

fun ms :: "re \<Rightarrow> string \<Rightarrow> (string \<times> string list \<times> string) list" where
  "ms (Lit t) s = (if prefix t s then [(t, [], drop (length t) s)] else [])"
| "ms (Sym c) s =
     (if s \<noteq> [] \<and> in_cls c (hd s) then [([hd s], [], tl s)] else [])"
| "ms (Rep greedy n c) s =
     map (\<lambda>i. (take i s, [], drop i s))
       (rep_counts greedy n (length (takeWhile (in_cls c) s)))"
| "ms (Opt r) s = ms r s @ [([], [], s)]"
| "ms (Or r1 r2) s = ms r1 s @ ms r2 s"
| "ms (Cat r1 r2) s =
     concat (map (\<lambda>(m1, g1, s1). map (\<lambda>(m2, g2, s2). (m1 @ m2, g1 @ g2, s2)) (ms r2 s1))
       (ms r1 s))"
| "ms (Grp r) s = map (\<lambda>(m, g, s'). (m, m # g, s')) (ms r s)"

text \<open>\<open>re.match(r, s)\<close>: the groups of the first match at the start of \<open>s\<close>, if any.\<close>

definition re_match :: "re \<Rightarrow> string \<Rightarrow> string list option" where
  "re_match r s = (case ms r s of [] \<Rightarrow> None | (m, g, s') # _ \<Rightarrow> Some g)"

text \<open>\<open>re.search(r, s)\<close>: the first match at the leftmost position that has one.\<close>

fun re_search :: "re \<Rightarrow> string \<Rightarrow> string list option" where
  "re_search r [] = re_match r []"
| "re_search r (c # s) =
     (case re_match r (c # s) of Some g \<Rightarrow> Some g | None \<Rightarrow> re_search r s)"

fun seq :: "re list \<Rightarrow> re" where
  "seq [] = Lit []"
| "seq [r] = r"
| "seq (r # rs) = Cat r (seq rs)"

section \<open>Numbers\<close>

datatype error = ValueError | AttributeError | OverflowError

text \<open>
  A Python \<open>float\<close> is an IEEE 754 binary64 number. A finite one is modelled by its exact
  rational value (the sign of a zero is dropped: \<open>int\<close> does not see it); the two
  infinities are kept, since \<open>int\<close> raises on them. No operation of the program yields a
  NaN.
\<close>

datatype pyfloat = Fin rat | PInf | NInf

definition pow2 :: "int \<Rightarrow> rat" where
  "pow2 e = (if 0 \<le> e then 2 ^ nat e else 1 / 2 ^ nat (- e))"

text \<open>The integer nearest to \<open>q\<close>, a tie going to the even one.\<close>

definition round_half_even :: "rat \<Rightarrow> int" where
  "round_half_even q =
     (let f = \<lfloor>q\<rfloor>; d = q - of_int f
      in if d < 1 / 2 then f else if 1 / 2 < d then f + 1 else if even f then f else f + 1)"

text \<open>For \<open>q > 0\<close>, the exponent \<open>d\<close> with \<open>2 ^ d \<le> q < 2 ^ (d + 1)\<close>.\<close>

definition ilog2 :: "rat \<Rightarrow> int" where
  "ilog2 q =
     (let d = bitlen (fst (quotient_of q)) - bitlen (snd (quotient_of q))
      in if pow2 d \<le> q then d else d - 1)"

text \<open>
  Rounding a positive rational to binary64, to nearest with ties to even: 53 significant
  bits, the exponent of the last bit not below \<open>-1074\<close> (subnormal numbers), and infinity
  from \<open>2 ^ 1024\<close> on.
\<close>

definition round_pos :: "rat \<Rightarrow> pyfloat" where
  "round_pos q =
     (let e = max (ilog2 q - 52) (- 1074);
          v = of_int (round_half_even (q / pow2 e)) * pow2 e
      in if pow2 1024 \<le> v then PInf else Fin v)"

fun fneg :: "pyfloat \<Rightarrow> pyfloat" where
  "fneg (Fin v) = Fin (- v)"
| "fneg PInf = NInf"
| "fneg NInf = PInf"

definition to_double :: "rat \<Rightarrow> pyfloat" where
  "to_double q =
     (if q = 0 then Fin 0 else if 0 < q then round_pos q else fneg (round_pos (- q)))"

text \<open>\<open>k * x\<close> for a positive integer constant \<open>k\<close> (exactly a float) and a float \<open>x\<close>.\<close>

fun fmul_const :: "nat \<Rightarrow> pyfloat \<Rightarrow> pyfloat" where
  "fmul_const k (Fin v) = to_double (of_nat k * v)"
| "fmul_const k PInf = PInf"
| "fmul_const k NInf = NInf"

text \<open>\<open>int(x)\<close> of a float: truncation towards zero; an infinity raises OverflowError.\<close>

fun int_of_float :: "pyfloat \<Rightarrow> error + int" where
  "int_of_float (Fin v) = Inr (if 0 \<le> v then \<lfloor>v\<rfloor> else \<lceil>v\<rceil>)"
| "int_of_float PInf = Inl OverflowError"
| "int_of_float NInf = Inl OverflowError"

definition digit_val :: "char \<Rightarrow> nat" where
  "digit_val c = of_char c - 48"

definition digits_val :: "string \<Rightarrow> nat" where
  "digits_val ds = foldl (\<lambda>acc c. 10 * acc + digit_val c) 0 ds"

fun split_sign :: "string \<Rightarrow> bool \<times> string" where
  "split_sign [] = (False, [])"
| "split_sign (c # s) =
     (if c = CHR ''-'' then (True, s) else if c = CHR ''+'' then (False, s) else (False, c # s))"

text \<open>
  \<open>float(s)\<close> on the plain decimal literals: an optional sign, digits, and optionally a
  point and more digits, with a digit somewhere. Python's \<open>float\<close> accepts more (blanks
  around the literal, exponents, underscores, \<open>inf\<close>, \<open>nan\<close>), which this model answers
  with ValueError; the program calls \<open>float\<close> only on texts captured by the group
  \<open>[-+]?\d*\.?\d+\<close>, which are plain decimal literals.
\<close>

definition decimal_value :: "string \<Rightarrow> rat option" where
  "decimal_value s =
     (let u = snd (split_sign s);
          ip = takeWhile isdigit u;
          r = dropWhile isdigit u;
          fp = (if r = [] then [] else tl r);
          ok = ((r = [] \<or> hd r = CHR ''.'') \<and> list_all isdigit fp \<and> ip @ fp \<noteq> []);
          a = of_nat (digits_val (ip @ fp)) / 10 ^ length fp
      in if ok then Some (if fst (split_sign s) then - a else a) else None)"

definition py_float :: "string \<Rightarrow> error + pyfloat" where
  "py_float s = (case decimal_value s of None \<Rightarrow> Inl ValueError | Some q \<Rightarrow> Inr (to_double q))"

text \<open>
  \<open>int(s)\<close> on a text: blanks around it are dropped, then come an optional sign and
  digits, where single underscores may stand between digits. (The interpreter's
  configurable limit on the number of digits is not modelled.)
\<close>

fun int_digits_ok :: "string \<Rightarrow> bool" where
  "int_digits_ok [] = False"
| "int_digits_ok [c] = isdigit c"
| "int_digits_ok (c # d # s) =
     (isdigit c \<and> (if d = CHR ''_'' then int_digits_ok s else int_digits_ok (d # s)))"

definition py_int :: "string \<Rightarrow> error + int" where
  "py_int s =
     (let t = strip s; u = snd (split_sign t);
          n = int (digits_val (filter (\<lambda>c. c \<noteq> CHR ''_'') u))
      in if int_digits_ok u then Inr (if fst (split_sign t) then - n else n)
         else Inl ValueError)"

section \<open>The patterns of the program\<close>

text \<open>\<open>ACTION_RE = ##\s*Action:\s*\n([^#`]+)\<close> and \<open>THOUGHT_RE\<close>, alike.\<close>

definition header_re :: "string \<Rightarrow> re" where
  "header_re name =
     seq [Lit ''##'', Rep True 0 Space, Lit name, Rep True 0 Space, Lit [NL],
          Grp (Rep True 1 (NoneOf ''#`''))]"

definition ACTION_RE :: re where
  "ACTION_RE = header_re ''Action:''"

definition THOUGHT_RE :: re where
  "THOUGHT_RE = header_re ''Thought:''"

text \<open>\<open>CODE_RE = ```(?:python|code)?\s*([^`]+?)```\<close>\<close>

definition CODE_RE :: re where
  "CODE_RE =
     seq [Lit ''```'', Opt (Or (Lit ''python'') (Lit ''code'')), Rep True 0 Space,
          Grp (Rep False 1 (NoneOf ''`'')), Lit ''```'']"

text \<open>The group \<open>([-+]?\d*\.?\d+)\<close> of both coordinate patterns.\<close>

definition number_re :: re where
  "number_re =
     Grp (seq [Opt (Sym (OneOf ''-+'')), Rep True 0 Digit, Opt (Lit ''.''), Rep True 1 Digit])"

text \<open>\<open>COORD_PAIR = ([-+]?\d*\.?\d+)\s*,\s*([-+]?\d*\.?\d+)\<close>\<close>

definition COORD_PAIR :: re where
  "COORD_PAIR = seq [number_re, Rep True 0 Space, Lit '','', Rep True 0 Space, number_re]"

text \<open>\<open>NAMED_COORD = x\s*=\s*([-+]?\d*\.?\d+)\s*,\s*y\s*=\s*([-+]?\d*\.?\d+)\<close>\<close>

definition NAMED_COORD :: re where
  "NAMED_COORD =
     seq [Lit ''x'', Rep True 0 Space, Lit ''='', Rep True 0 Space, number_re,
          Rep True 0 Space, Lit '','', Rep True 0 Space,
          Lit ''y'', Rep True 0 Space, Lit ''='', Rep True 0 Space, number_re]"

text \<open>The argument list \<open>\(([^)]*)\)\<close> that ends every call pattern.\<close>

definition args_re :: "re list" where
  "args_re = [Lit ''('', Grp (Rep True 0 (NoneOf '')'')), Lit '')'']"

text \<open>\<open>pyautogui\.(click|rightClick|doubleClick)\(([^)]*)\)\<close>\<close>

definition click_re :: re where
  "click_re =
     seq ([Lit ''pyautogui.'',
           Grp (Or (Lit ''click'') (Or (Lit ''rightClick'') (Lit ''doubleClick'')))] @ args_re)"

text \<open>\<open>pyautogui\.scroll\(([^)]*)\)\<close>\<close>

definition scroll_re :: re where
  "scroll_re = seq (Lit ''pyautogui.scroll'' # args_re)"

text \<open>\<open>pyautogui\.(moveTo|click)\(([^)]*)\)\<close>\<close>

definition move_re :: re where
  "move_re = seq ([Lit ''pyautogui.'', Grp (Or (Lit ''moveTo'') (Lit ''click''))] @ args_re)"

text \<open>\<open>pyautogui\.dragTo\(([^)]*)\)\<close>\<close>

definition drag_re :: re where
  "drag_re = seq (Lit ''pyautogui.dragTo'' # args_re)"

text \<open>\<open>pyautogui\.(write|typewrite)\(([^)]*)\)\<close>\<close>

definition write_re :: re where
  "write_re = seq ([Lit ''pyautogui.'', Grp (Or (Lit ''write'') (Lit ''typewrite''))] @ args_re)"

text \<open>\<open>pyautogui\.press\(([^)]*)\)\<close>\<close>

definition press_re :: re where
  "press_re = seq (Lit ''pyautogui.press'' # args_re)"

text \<open>\<open>['\"](.+?)['\"]\<close>, and the same after \<open>(?:message=)?\<close>.\<close>

definition quoted_re :: re where
  "quoted_re = seq [Sym (OneOf [SQ, DQ]), Grp (Rep False 1 AnyButNL), Sym (OneOf [SQ, DQ])]"

definition message_re :: re where
  "message_re = Cat (Opt (Lit ''message='')) quoted_re"

section \<open>Sections of a response\<close>

text \<open>\<open>m.group(1).strip() if m else ""\<close>\<close>

definition section_text :: "string list option \<Rightarrow> string" where
  "section_text m = (case m of None \<Rightarrow> [] | Some g \<Rightarrow> strip (g ! 0))"

definition extract_sections :: "string \<Rightarrow> string \<times> string \<times> string" where
  "extract_sections resp =
     (section_text (re_search THOUGHT_RE resp),
      section_text (re_search ACTION_RE resp),
      section_text (re_search CODE_RE resp))"

section \<open>Actions of a code segment\<close>

text \<open>\<open>int(k * float(g))\<close> for a canvas dimension \<open>k\<close> and a captured number \<open>g\<close>.\<close>

definition scale :: "nat \<Rightarrow> string \<Rightarrow> error + int" where
  "scale k g =
     (case py_float g of Inl e \<Rightarrow> Inl e | Inr x \<Rightarrow> int_of_float (fmul_const k x))"

text \<open>
  \<open>_parse_coords\<close>: the named form is looked for first, then the first bare pair; without
  either, both coordinates are \<open>None\<close>.
\<close>

definition coords_match :: "string \<Rightarrow> string list option" where
  "coords_match arg_str =
     (case re_search NAMED_COORD arg_str of
        Some g \<Rightarrow> Some g
      | None \<Rightarrow> re_search COORD_PAIR arg_str)"

definition parse_coords :: "string \<Rightarrow> error + (int option \<times> int option)" where
  "parse_coords arg_str =
     (case coords_match arg_str of
        None \<Rightarrow> Inr (None, None)
      | Some g \<Rightarrow>
          (case scale 1920 (g ! 0) of
             Inl e \<Rightarrow> Inl e
           | Inr x \<Rightarrow>
               (case scale 1080 (g ! 1) of
                  Inl e \<Rightarrow> Inl e
                | Inr y \<Rightarrow> Inr (Some x, Some y))))"

text \<open>
  The records built by \<open>build_actions\<close>: \<open>{"type": func, "x", "y"}\<close> for the click family,
  \<open>{"type": "scroll", "x", "y", "clicks"}\<close>, \<open>{"type": "drag", "startX", "startY", "endX",
  "endY"}\<close>, \<open>{"type": "type", "text"}\<close> and \<open>{"type": "press", "key"}\<close>. A coordinate is
  \<open>None\<close> when the arguments hold no pair.
\<close>

datatype mouse_action =
    MClick string "int option" "int option"
  | MScroll "int option" "int option" int
  | MDrag "int option" "int option" "int option" "int option"

datatype keyboard_action = KType string | KPress string

text \<open>The three variables of the loop of \<open>build_actions\<close>.\<close>

record scan =
  mouse_action :: "mouse_action option"
  keyboard_action :: "keyboard_action option"
  start_coords :: "(int option \<times> int option) option"

definition scan0 :: scan where
  "scan0 = \<lparr>mouse_action = None, keyboard_action = None, start_coords = None\<rparr>"

text \<open>
  One turn of the loop: the \<open>if\<close>/\<open>elif\<close> chain on a line. In the drag branch
  \<open>end_coords\<close> is a pair, which is true in a condition whatever it holds, and
  \<open>start_coords\<close> is true as soon as it has been assigned a pair.
\<close>

definition click_line :: "scan \<Rightarrow> string list \<Rightarrow> error + scan" where
  "click_line st g =
     (case parse_coords (g ! 1) of
        Inl e \<Rightarrow> Inl e
      | Inr (x, y) \<Rightarrow> Inr (st\<lparr>mouse_action := Some (MClick (g ! 0) x y)\<rparr>))"

definition scroll_line :: "scan \<Rightarrow> string list \<Rightarrow> error + scan" where
  "scroll_line st g =
     (case py_int (strip (first_part (g ! 0))) of
        Inl e \<Rightarrow> Inl e
      | Inr clicks \<Rightarrow>
          (case parse_coords (g ! 0) of
             Inl e \<Rightarrow> Inl e
           | Inr (x, y) \<Rightarrow> Inr (st\<lparr>mouse_action := Some (MScroll x y clicks)\<rparr>)))"

definition move_line :: "scan \<Rightarrow> string list \<Rightarrow> error + scan" where
  "move_line st g =
     (case parse_coords (g ! 1) of
        Inl e \<Rightarrow> Inl e
      | Inr xy \<Rightarrow> Inr (st\<lparr>start_coords := Some xy\<rparr>))"

definition drag_line :: "scan \<Rightarrow> string list \<Rightarrow> error + scan" where
  "drag_line st g =
     (case parse_coords (g ! 0) of
        Inl e \<Rightarrow> Inl e
      | Inr (ex, ey) \<Rightarrow>
          (case start_coords st of
             None \<Rightarrow> Inr st
           | Some (sx, sy) \<Rightarrow> Inr (st\<lparr>mouse_action := Some (MDrag sx sy ex ey)\<rparr>)))"

definition write_line :: "scan \<Rightarrow> string list \<Rightarrow> error + scan" where
  "write_line st g =
     (case re_search message_re (g ! 1) of
        None \<Rightarrow> Inl AttributeError
      | Some q \<Rightarrow> Inr (st\<lparr>keyboard_action := Some (KType (q ! 0))\<rparr>))"

definition press_line :: "scan \<Rightarrow> string list \<Rightarrow> error + scan" where
  "press_line st g =
     (case re_search quoted_re (g ! 0) of
        None \<Rightarrow> Inl AttributeError
      | Some q \<Rightarrow> Inr (st\<lparr>keyboard_action := Some (KPress (q ! 0))\<rparr>))"

definition step_line :: "scan \<Rightarrow> string \<Rightarrow> error + scan" where
  "step_line st line =
     (case re_match click_re line of Some g \<Rightarrow> click_line st g | None \<Rightarrow>
     (case re_match scroll_re line of Some g \<Rightarrow> scroll_line st g | None \<Rightarrow>
     (case re_match move_re line of Some g \<Rightarrow> move_line st g | None \<Rightarrow>
     (case re_match drag_re line of Some g \<Rightarrow> drag_line st g | None \<Rightarrow>
     (case re_match write_re line of Some g \<Rightarrow> write_line st g | None \<Rightarrow>
     (case re_match press_re line of Some g \<Rightarrow> press_line st g | None \<Rightarrow>
      Inr st))))))"

fun scan_lines :: "scan \<Rightarrow> string list \<Rightarrow> error + scan" where
  "scan_lines st [] = Inr st"
| "scan_lines st (l # ls) =
     (case step_line st l of Inl e \<Rightarrow> Inl e | Inr st' \<Rightarrow> scan_lines st' ls)"

text \<open>\<open>[ln.strip() for ln in code.splitlines() if ln.strip()]\<close>\<close>

definition code_lines :: "string \<Rightarrow> string list" where
  "code_lines code = map strip (filter (\<lambda>ln. strip ln \<noteq> []) (splitlines code))"

definition build_actions ::
  "string \<Rightarrow> error + (mouse_action option \<times> keyboard_action option)" where
  "build_actions code =
     (case scan_lines scan0 (code_lines code) of
        Inl e \<Rightarrow> Inl e
      | Inr st \<Rightarrow> Inr (mouse_action st, keyboard_action st))"

section \<open>Tasks\<close>

text \<open>
  A value read by \<open>json.load\<close>. In a condition \<open>None\<close>, \<open>False\<close>, zero and the empty string,
  list and dictionary are false, everything else is true.
\<close>

datatype json =
    JNull
  | JBool bool
  | JNum rat
  | JStr string
  | JList "json list"
  | JDict "(string \<times> json) list"

fun truthy :: "json \<Rightarrow> bool" where
  "truthy JNull = False"
| "truthy (JBool b) = b"
| "truthy (JNum n) = (n \<noteq> 0)"
| "truthy (JStr s) = (s \<noteq> [])"
| "truthy (JList xs) = (xs \<noteq> [])"
| "truthy (JDict kvs) = (kvs \<noteq> [])"

text \<open>\<open>cfg.get("prompt", "").strip()\<close>: only a string has the method \<open>strip\<close>.\<close>

definition prompt_stripped :: "(string \<rightharpoonup> json) \<Rightarrow> error + json" where
  "prompt_stripped cfg =
     (case cfg ''prompt'' of
        None \<Rightarrow> Inr (JStr (strip []))
      | Some (JStr p) \<Rightarrow> Inr (JStr (strip p))
      | Some _ \<Rightarrow> Inl AttributeError)"

text \<open>
  The instruction of a task: the empty string without a configuration file, else
  \<open>cfg.get("instruction") or cfg.get("prompt", "").strip()\<close>, where the configuration
  document is a dictionary.
\<close>

definition load_instruction :: "(string \<rightharpoonup> json) option \<Rightarrow> error + json" where
  "load_instruction cfg_file =
     (case cfg_file of
        None \<Rightarrow> Inr (JStr [])
      | Some cfg \<Rightarrow>
          (case cfg ''instruction'' of
             None \<Rightarrow> prompt_stripped cfg
           | Some v \<Rightarrow> if truthy v then Inr v else prompt_stripped cfg))"

text \<open>A line of the step log, read by \<open>json.loads\<close>, with the three fields the program reads.\<close>

record row =
  step_num :: int
  response :: string
  screenshot_file :: string

text \<open>
  A step of the output. The keys \<open>mouseAction\<close> and \<open>keyboardAction\<close> are set when
  \<open>build_actions\<close> returned a record (a record is never empty, so it is true in a
  condition), which the model writes as an optional field.
\<close>

record step =
  stepNum :: int
  thought :: string
  action :: string
  code :: string
  response_text :: string
  image_path :: string
  mouseAction :: "mouse_action option"
  keyboardAction :: "keyboard_action option"

record task =
  task_id :: string
  steps :: "step list"
  instruction :: json

text \<open>The body of the loop of \<open>process_task\<close> over the lines of the step log.\<close>

definition process_row :: "string \<Rightarrow> row \<Rightarrow> error + step" where
  "process_row tid r =
     (case extract_sections (response r) of
        (thought_text, action_desc, code_block) \<Rightarrow>
          (case build_actions code_block of
             Inl e \<Rightarrow> Inl e
           | Inr (mouse_act, key_act) \<Rightarrow>
               Inr \<lparr>stepNum = step_num r,
                    thought = thought_text,
                    action = (if contains ''computer.terminate'' code_block
                              then ''DONE'' else action_desc),
                    code = code_block,
                    response_text = strip (response r),
                    image_path = ''./static/trajs/'' @ tid @ ''/'' @ screenshot_file r,
                    mouseAction = mouse_act,
                    keyboardAction = key_act\<rparr>))"

fun process_rows :: "string \<Rightarrow> row list \<Rightarrow> error + step list" where
  "process_rows tid [] = Inr []"
| "process_rows tid (r # rs) =
     (case process_row tid r of
        Inl e \<Rightarrow> Inl e
      | Inr st \<Rightarrow>
          (case process_rows tid rs of Inl e \<Rightarrow> Inl e | Inr sts \<Rightarrow> Inr (st # sts)))"

text \<open>
  \<open>process_task\<close> for the task directory named \<open>tid\<close>, given the configuration document
  (if the file exists) and the lines of the step log.
\<close>

definition process_task ::
  "string \<Rightarrow> (string \<rightharpoonup> json) option \<Rightarrow> row list \<Rightarrow> error + task" where
  "process_task tid cfg_file rows =
     (case load_instruction cfg_file of
        Inl e \<Rightarrow> Inl e
      | Inr ins \<Rightarrow>
          (case process_rows tid rows of
             Inl e \<Rightarrow> Inl e
           | Inr sts \<Rightarrow> Inr \<lparr>task_id = tid, steps = sts, instruction = ins\<rparr>))"

text \<open>
  The lines that reach the third branch of the chain (where the start of a drag is
  remembered) and the fourth (the drag-to calls), with the groups of their match.
\<close>

definition anchor_line :: "string \<Rightarrow> string list \<Rightarrow> bool" where
  "anchor_line l g =
     (re_match click_re l = None \<and> re_match scroll_re l = None \<and> re_match move_re l = Some g)"

definition dragTo_line :: "string \<Rightarrow> string list \<Rightarrow> bool" where
  "dragTo_line l g =
     (re_match click_re l = None \<and> re_match scroll_re l = None \<and> re_match move_re l = None
      \<and> re_match drag_re l = Some g)"

text \<open>
  What the loop maintains about \<open>start_coords\<close> and about a drag record: a pending start
  was parsed from the latest line of the third branch seen so far, and a drag record
  combines the start pending at a drag-to line with the target of that line.
\<close>

definition pending_ok :: "string list \<Rightarrow> (int option \<times> int option) \<Rightarrow> bool" where
  "pending_ok ls xy \<longleftrightarrow>
     (\<exists>pre a ga mid. ls = pre @ a # mid \<and> anchor_line a ga \<and> parse_coords (ga ! 1) = Inr xy
        \<and> (\<forall>m\<in>set mid. \<forall>g. \<not> anchor_line m g))"

definition drag_ok ::
  "string list \<Rightarrow> int option \<Rightarrow> int option \<Rightarrow> int option \<Rightarrow> int option \<Rightarrow> bool" where
  "drag_ok ls sx sy ex ey \<longleftrightarrow>
     (\<exists>pre a ga mid d gd post. ls = pre @ a # mid @ d # post
        \<and> anchor_line a ga \<and> parse_coords (ga ! 1) = Inr (sx, sy)
        \<and> (\<forall>m\<in>set mid. \<forall>g. \<not> anchor_line m g)
        \<and> dragTo_line d gd \<and> parse_coords (gd ! 0) = Inr (ex, ey))"

section \<open>Facts about the number model\<close>

lemma pow2_powi: "pow2 e = 2 powi e"
  by (simp add: pow2_def power_int_def inverse_eq_divide power_one_over flip: power_inverse)

lemma pow2_pos: "0 < pow2 e"
  by (simp add: pow2_powi)

lemma pow2_add: "pow2 (a + b) = pow2 a * pow2 b"
  by (simp add: pow2_powi power_int_add)

lemma pow2_less_iff: "pow2 a < pow2 b \<longleftrightarrow> a < b"
proof
  assume "pow2 a < pow2 b"
  show "a < b"
  proof (rule ccontr)
    assume "\<not> a < b"
    then have "b \<le> a" by simp
    then have "(2::rat) powi b \<le> 2 powi a" by (intro power_int_increasing) auto
    with \<open>pow2 a < pow2 b\<close> show False by (simp add: pow2_powi)
  qed
next
  assume "a < b"
  then show "pow2 a < pow2 b"
    unfolding pow2_powi by (intro power_int_strict_increasing) auto
qed



lemma bitlen_pow2_bounds:
  assumes "0 < a"
  shows "pow2 (bitlen a - 1) \<le> of_int a" and "of_int a < pow2 (bitlen a)"
proof -
  from assms have b1: "1 \<le> bitlen a"
    using bitlen_eq_zero_iff [of a] bitlen_nonneg [of a] by linarith
  from bitlen_bounds [OF assms]
  have lo: "2 ^ nat (bitlen a - 1) \<le> a" and hi: "a < 2 ^ nat (bitlen a)" by auto
  have "(of_int (2 ^ nat (bitlen a - 1)) :: rat) \<le> of_int a"
    using lo by (simp only: of_int_le_iff)
  then show "pow2 (bitlen a - 1) \<le> of_int a"
    using b1 by (simp add: pow2_def)
  have "(of_int a :: rat) < of_int (2 ^ nat (bitlen a))"
    using hi by (simp only: of_int_less_iff)
  then show "of_int a < pow2 (bitlen a)"
    using b1 by (simp add: pow2_def)
qed

lemma ilog2_bounds:
  assumes "0 < q"
  shows "pow2 (ilog2 q) \<le> q \<and> q < pow2 (ilog2 q + 1)"
proof -
  obtain a b where ab: "quotient_of q = (a, b)" by (cases "quotient_of q")
  then have bpos: "0 < b" and q: "q = of_int a / of_int b"
    by (auto dest: quotient_of_denom_pos quotient_of_div)
  with assms have apos: "0 < a"
    by (simp add: zero_less_divide_iff)
  define d where "d = bitlen a - bitlen b"
  note A = bitlen_pow2_bounds [OF apos] and B = bitlen_pow2_bounds [OF bpos]
  have bq: "(0::rat) < of_int b" using bpos by simp
  have "q * of_int b = of_int a" using q bq by simp
  have up: "q < pow2 (d + 1)"
  proof -
    have "of_int a < pow2 (bitlen a)" by (rule A)
    also have "\<dots> = pow2 (d + 1) * pow2 (bitlen b - 1)"
      by (simp add: d_def flip: pow2_add)
    also have "\<dots> \<le> pow2 (d + 1) * of_int b"
      using B(1) pow2_pos [of "d + 1"] by simp
    finally have "of_int a / of_int b < pow2 (d + 1)"
      using bq by (simp add: pos_divide_less_eq)
    then show ?thesis by (simp add: q)
  qed
  have lo: "pow2 (d - 1) < q"
  proof -
    have "pow2 (d - 1) * of_int b < pow2 (d - 1) * pow2 (bitlen b)"
      using B(2) pow2_pos [of "d - 1"] by simp
    also have "\<dots> = pow2 (bitlen a - 1)"
      by (simp add: d_def flip: pow2_add)
    also have "\<dots> \<le> of_int a" by (rule A)
    finally have "pow2 (d - 1) < of_int a / of_int b"
      using bq by (simp add: pos_less_divide_eq)
    then show ?thesis by (simp add: q)
  qed
  show ?thesis
  proof (cases "pow2 d \<le> q")
    case True
    then have "ilog2 q = d" by (simp add: ilog2_def ab d_def Let_def)
    with True up show ?thesis by simp
  next
    case False
    then have "ilog2 q = d - 1" by (simp add: ilog2_def ab d_def Let_def)
    with False lo show ?thesis by simp
  qed
qed

lemma ilog2_unique:
  assumes "pow2 d \<le> q" and "q < pow2 (d + 1)"
  shows "ilog2 q = d"
proof -
  have "0 < q" using assms(1) pow2_pos [of d] by linarith
  from ilog2_bounds [OF this]
  have 1: "pow2 (ilog2 q) \<le> q" and 2: "q < pow2 (ilog2 q + 1)" by auto
  from 1 assms(2) have "pow2 (ilog2 q) < pow2 (d + 1)" by linarith
  then have "ilog2 q < d + 1" by (simp only: pow2_less_iff)
  moreover from assms(1) 2 have "pow2 d < pow2 (ilog2 q + 1)" by linarith
  then have "d < ilog2 q + 1" by (simp only: pow2_less_iff)
  ultimately show ?thesis by linarith
qed


lemma floor_rat_numeral: "\<lfloor>numeral a / numeral b :: rat\<rfloor> = numeral a div numeral b"
  by (metis floor_divide_of_int_eq of_int_numeral)

lemma round_half_even_cases: "round_half_even x = \<lfloor>x\<rfloor> \<or> round_half_even x = \<lfloor>x\<rfloor> + 1"
  by (simp add: round_half_even_def Let_def)

lemma round_half_even_of_int: "round_half_even (of_int n) = n"
  by (simp add: round_half_even_def Let_def)

lemma round_half_even_le:
  assumes "x \<le> of_int n"
  shows "round_half_even x \<le> n"
proof (cases "x = of_int \<lfloor>x\<rfloor>")
  case True
  then have "round_half_even x = \<lfloor>x\<rfloor>"
    using round_half_even_of_int [of "\<lfloor>x\<rfloor>"] by simp
  with assms show ?thesis by (simp add: floor_le_iff)
next
  case False
  then have "of_int \<lfloor>x\<rfloor> < x" using of_int_floor_le [of x] by linarith
  with assms have "(of_int \<lfloor>x\<rfloor> :: rat) < of_int n" by linarith
  then have "\<lfloor>x\<rfloor> < n" by (simp only: of_int_less_iff)
  with round_half_even_cases [of x] show ?thesis by linarith
qed

lemma round_half_even_ge:
  assumes "of_int n \<le> x"
  shows "n \<le> round_half_even x"
proof -
  from assms have "n \<le> \<lfloor>x\<rfloor>" by (simp add: le_floor_iff)
  with round_half_even_cases [of x] show ?thesis by linarith
qed

lemma round_pos_normal:
  assumes lo: "pow2 d \<le> q" and hi: "q < pow2 (d + 1)" and d: "- 1022 \<le> d" "d < 1024"
  shows "round_pos q =
    (let v = of_int (round_half_even (q / pow2 (d - 52))) * pow2 (d - 52)
     in if pow2 1024 \<le> v then PInf else Fin v)"
proof -
  have "ilog2 q = d" using lo hi by (rule ilog2_unique)
  moreover have "max (d - 52) (- 1074) = d - 52" using d by simp
  ultimately show ?thesis by (simp add: round_pos_def Let_def)
qed

lemma to_double_half: "to_double (1 / 2) = Fin (1 / 2)"
  by (simp add: to_double_def round_pos_normal [where d = "- 1"] pow2_def round_half_even_def Let_def floor_rat_numeral)

lemma to_double_960: "to_double 960 = Fin 960"
  by (simp add: to_double_def round_pos_normal [where d = 9] pow2_def round_half_even_def Let_def floor_rat_numeral)

lemma to_double_tenth: "to_double (1 / 10) = Fin (3602879701896397 / 36028797018963968)"
  by (simp add: to_double_def round_pos_normal [where d = "- 4"] pow2_def round_half_even_def Let_def floor_rat_numeral)


lemma scale_half_1920: "scale 1920 ''0.5'' = Inr 960"
proof -
  have "decimal_value ''0.5'' = Some (1 / 2)" by code_simp
  then show ?thesis
    by (simp add: scale_def py_float_def to_double_half to_double_960)
qed

lemmas float_eval = to_double_def pow2_def round_half_even_def Let_def floor_rat_numeral
  scale_def py_float_def

lemma scale_half_1080: "scale 1080 ''0.5'' = Inr 540"
proof -
  have "decimal_value ''0.5'' = Some (1 / 2)" by code_simp
  then show ?thesis
    by (simp add: float_eval round_pos_normal [where d = "- 1"] round_pos_normal [where d = 9])
qed


lemma scale_01_1920: "scale 1920 ''0.1'' = Inr 192"
proof -
  have "decimal_value ''0.1'' = Some (1 / 10)" by code_simp
  then show ?thesis
    by (simp add: float_eval round_pos_normal [where d = "- 4"] round_pos_normal [where d = 7])
qed

lemma scale_02_1080: "scale 1080 ''0.2'' = Inr 216"
proof -
  have "decimal_value ''0.2'' = Some (1 / 5)" by code_simp
  then show ?thesis
    by (simp add: float_eval round_pos_normal [where d = "- 3"] round_pos_normal [where d = 7])
qed

lemma scale_03_1920: "scale 1920 ''0.3'' = Inr 576"
proof -
  have "decimal_value ''0.3'' = Some (3 / 10)" by code_simp
  then show ?thesis
    by (simp add: float_eval round_pos_normal [where d = "- 2"] round_pos_normal [where d = 9])
qed

lemma scale_04_1080: "scale 1080 ''0.4'' = Inr 432"
proof -
  have "decimal_value ''0.4'' = Some (2 / 5)" by code_simp
  then show ?thesis
    by (simp add: float_eval round_pos_normal [where d = "- 2"] round_pos_normal [where d = 8])
qed


lemma pow2_nonneg_of_int: "0 \<le> e \<Longrightarrow> pow2 e = of_int (2 ^ nat e)"
  by (simp add: pow2_def)




section \<open>Facts about the matcher\<close>

lemma concat_map_single:
  assumes "distinct xs" and "x \<in> set xs" and "\<And>y. y \<in> set xs \<Longrightarrow> y \<noteq> x \<Longrightarrow> f y = []"
  shows "concat (map f xs) = f x"
  using assms
proof (induction xs)
  case Nil
  then show ?case by simp
next
  case (Cons a xs)
  show ?case
  proof (cases "a = x")
    case True
    with Cons.prems have "\<And>y. y \<in> set xs \<Longrightarrow> f y = []" by auto
    then have "concat (map f xs) = []" by (induction xs) auto
    with True show ?thesis by simp
  next
    case False
    with Cons show ?thesis by auto
  qed
qed


lemma distinct_rep_counts: "distinct (rep_counts g n k)"
  by (simp add: rep_counts_def)

lemma set_rep_counts: "set (rep_counts g n k) = {i. n \<le> i \<and> i \<le> k}"
  by (auto simp: rep_counts_def)


lemma ms_Rep_Cat_single:
  assumes "n \<le> i" and "i \<le> length (takeWhile (in_cls c) s)"
    and "\<And>j. n \<le> j \<Longrightarrow> j \<le> length (takeWhile (in_cls c) s) \<Longrightarrow> j \<noteq> i \<Longrightarrow> ms r (drop j s) = []"
  shows "ms (Cat (Rep g n c) r) s = map (\<lambda>(m2, g2, s2). (take i s @ m2, g2, s2)) (ms r (drop i s))"
proof -
  let ?f = "\<lambda>i. map (\<lambda>(m2, g2, s2). (take i s @ m2, g2, s2)) (ms r (drop i s))"
  let ?xs = "rep_counts g n (length (takeWhile (in_cls c) s))"
  have "ms (Cat (Rep g n c) r) s = concat (map ?f ?xs)"
    by (simp add: map_concat comp_def)
  also have "\<dots> = ?f i"
    using assms by (intro concat_map_single) (auto simp: distinct_rep_counts set_rep_counts)
  finally show ?thesis .
qed


lemma ms_Lit_Cat:
  "ms (Cat (Lit t) r) s =
     (if prefix t s then map (\<lambda>(m2, g2, s2). (t @ m2, g2, s2)) (ms r (drop (length t) s)) else [])"
  by simp



section \<open>Lines of a code segment\<close>




section \<open>The argument list of a call\<close>




section \<open>Sequences of patterns\<close>

lemma seq_Cons: "rs \<noteq> [] \<Longrightarrow> seq (r # rs) = Cat r (seq rs)"
  by (cases rs) auto

lemma args_re_nonempty: "args_re \<noteq> []"
  by (simp add: args_re_def)

















section \<open>The first match of a sequence\<close>







section \<open>The Action Recognizer on single calls\<close>

text \<open>
  Claim C1 says that \<open>build_actions\<close> never raises, and that a recognized write,
  typewrite, press or scroll line without the expected quoted literal or leading
  integer yields absent fields. On the code segment \<open>pyautogui.write()\<close> the search for
  the quoted literal finds nothing, and reading group 1 of the missing match raises
  AttributeError.
\<close>

theorem build_actions_write_without_literal_raises:
  "build_actions ''pyautogui.write()'' = Inl AttributeError"
  by code_simp

text \<open>
  Claim C8: for the scroll call \<open>scroll(-5, x=0.5, y=0.5)\<close> (written, as the recognizer
  expects every call, with the prefix \<open>pyautogui.\<close>) the recognizer emits the scroll
  record with \<open>x = 960\<close>, \<open>y = 540\<close> and \<open>clicks = -5\<close>: the line sets the mouse action to
  that record whatever the loop has seen before, and the code segment made of this call
  yields it.
\<close>

theorem scroll_named_coords_example:
  "step_line st ''pyautogui.scroll(-5, x=0.5, y=0.5)'' =
     Inr (st\<lparr>mouse_action := Some (MScroll (Some 960) (Some 540) (- 5))\<rparr>)
   \<and> build_actions ''pyautogui.scroll(-5, x=0.5, y=0.5)'' =
     Inr (Some (MScroll (Some 960) (Some 540) (- 5)), None)"
proof -
  let ?l = "''pyautogui.scroll(-5, x=0.5, y=0.5)''"
  let ?a = "''-5, x=0.5, y=0.5''"
  have l: "code_lines ?l = [?l]" by code_simp
  have m1: "re_match click_re ?l = None" by code_simp
  have m2: "re_match scroll_re ?l = Some [?a]" by code_simp
  have i: "py_int (strip (first_part ?a)) = Inr (- 5)" by code_simp
  have c: "coords_match ?a = Some [''0.5'', ''0.5'']" by code_simp
  have p: "parse_coords ?a = Inr (Some 960, Some 540)"
    by (simp add: parse_coords_def c scale_half_1920 scale_half_1080)
  have st: "step_line st ?l =
      Inr (st\<lparr>mouse_action := Some (MScroll (Some 960) (Some 540) (- 5))\<rparr>)" for st
    by (simp add: step_line_def m1 m2 scroll_line_def i p)
  have "build_actions ?l = Inr (Some (MScroll (Some 960) (Some 540) (- 5)), None)"
    by (simp add: build_actions_def l st scan0_def)
  with st show ?thesis by simp
qed

section \<open>Evaluating the calls of the examples\<close>

lemma parse_01_02: "parse_coords ''0.1, 0.2'' = Inr (Some 192, Some 216)"
proof -
  have "coords_match ''0.1, 0.2'' = Some [''0.1'', ''0.2'']" by code_simp
  then show ?thesis by (simp add: parse_coords_def scale_01_1920 scale_02_1080)
qed

lemma parse_03_04: "parse_coords ''0.3, 0.4'' = Inr (Some 576, Some 432)"
proof -
  have "coords_match ''0.3, 0.4'' = Some [''0.3'', ''0.4'']" by code_simp
  then show ?thesis by (simp add: parse_coords_def scale_03_1920 scale_04_1080)
qed

lemma parse_05_05: "parse_coords ''0.5, 0.5'' = Inr (Some 960, Some 540)"
proof -
  have "coords_match ''0.5, 0.5'' = Some [''0.5'', ''0.5'']" by code_simp
  then show ?thesis by (simp add: parse_coords_def scale_half_1920 scale_half_1080)
qed

lemma step_click_01_02:
  "step_line st ''pyautogui.click(0.1, 0.2)'' =
     Inr (st\<lparr>mouse_action := Some (MClick ''click'' (Some 192) (Some 216))\<rparr>)"
proof -
  have "re_match click_re ''pyautogui.click(0.1, 0.2)'' = Some [''click'', ''0.1, 0.2'']"
    by code_simp
  then show ?thesis by (simp add: step_line_def click_line_def parse_01_02)
qed

lemma step_moveTo_01_02:
  "step_line st ''pyautogui.moveTo(0.1, 0.2)'' =
     Inr (st\<lparr>start_coords := Some (Some 192, Some 216)\<rparr>)"
proof -
  let ?l = "''pyautogui.moveTo(0.1, 0.2)''"
  have "re_match click_re ?l = None" "re_match scroll_re ?l = None"
    "re_match move_re ?l = Some [''moveTo'', ''0.1, 0.2'']"
    by code_simp+
  then show ?thesis by (simp add: step_line_def move_line_def parse_01_02)
qed

lemma step_dragTo_03_04:
  "step_line st ''pyautogui.dragTo(0.3, 0.4)'' =
     (case start_coords st of
        None \<Rightarrow> Inr st
      | Some (sx, sy) \<Rightarrow> Inr (st\<lparr>mouse_action := Some (MDrag sx sy (Some 576) (Some 432))\<rparr>))"
proof -
  let ?l = "''pyautogui.dragTo(0.3, 0.4)''"
  have "re_match click_re ?l = None" "re_match scroll_re ?l = None"
    "re_match move_re ?l = None" "re_match drag_re ?l = Some [''0.3, 0.4'']"
    by code_simp+
  then show ?thesis by (simp add: step_line_def drag_line_def parse_03_04)
qed

lemma step_dragTo_05_05:
  "step_line st ''pyautogui.dragTo(0.5, 0.5)'' =
     (case start_coords st of
        None \<Rightarrow> Inr st
      | Some (sx, sy) \<Rightarrow> Inr (st\<lparr>mouse_action := Some (MDrag sx sy (Some 960) (Some 540))\<rparr>))"
proof -
  let ?l = "''pyautogui.dragTo(0.5, 0.5)''"
  have "re_match click_re ?l = None" "re_match scroll_re ?l = None"
    "re_match move_re ?l = None" "re_match drag_re ?l = Some [''0.5, 0.5'']"
    by code_simp+
  then show ?thesis by (simp add: step_line_def drag_line_def parse_05_05)
qed

lemma step_press_a:
  "step_line st (''pyautogui.press('' @ [SQ] @ ''a'' @ [SQ] @ '')'') =
     Inr (st\<lparr>keyboard_action := Some (KPress ''a'')\<rparr>)"
proof -
  let ?l = "''pyautogui.press('' @ [SQ] @ ''a'' @ [SQ] @ '')''"
  have "re_match click_re ?l = None" "re_match scroll_re ?l = None"
    "re_match move_re ?l = None" "re_match drag_re ?l = None" "re_match write_re ?l = None"
    "re_match press_re ?l = Some [[SQ] @ ''a'' @ [SQ]]"
    "re_search quoted_re ([SQ] @ ''a'' @ [SQ]) = Some [''a'']"
    by code_simp+
  then show ?thesis by (simp add: step_line_def press_line_def)
qed

text \<open>
  Claim C2 says that a plain click call directly followed by a drag-to call yields one
  drag record, the click serving as pending start. The chain of \<open>build_actions\<close> tests
  the click family first, so a click line never reaches the branch that remembers a
  start (whose pattern names \<open>click\<close> beside \<open>moveTo\<close>): the click line sets a click
  record, no start is pending at the drag-to line, and the click record is what the code
  returns.
\<close>

theorem click_then_dragTo_yields_click:
  "build_actions (''pyautogui.click(0.1, 0.2)'' @ [NL] @ ''pyautogui.dragTo(0.3, 0.4)'') =
     Inr (Some (MClick ''click'' (Some 192) (Some 216)), None)"
proof -
  have "code_lines (''pyautogui.click(0.1, 0.2)'' @ [NL] @ ''pyautogui.dragTo(0.3, 0.4)'') =
      [''pyautogui.click(0.1, 0.2)'', ''pyautogui.dragTo(0.3, 0.4)'']"
    by code_simp
  then show ?thesis
    by (simp add: build_actions_def step_click_01_02 step_dragTo_03_04 scan0_def)
qed

text \<open>
  Against claim C3 as stated: after a move-to line, a drag-to line, a press line and a
  second drag-to line, the second drag-to still takes the start (192, 216) of the
  move-to line. The pending start is not consumed by the first drag call, it is reused
  by a later one, and it is taken across the lines between.
\<close>

theorem drag_start_reused_counterexample:
  "build_actions (''pyautogui.moveTo(0.1, 0.2)'' @ [NL] @ ''pyautogui.dragTo(0.3, 0.4)'' @ [NL]
      @ ''pyautogui.press('' @ [SQ] @ ''a'' @ [SQ] @ '')'' @ [NL] @ ''pyautogui.dragTo(0.5, 0.5)'') =
     Inr (Some (MDrag (Some 192) (Some 216) (Some 960) (Some 540)), Some (KPress ''a''))"
proof -
  have "code_lines (''pyautogui.moveTo(0.1, 0.2)'' @ [NL] @ ''pyautogui.dragTo(0.3, 0.4)'' @ [NL]
      @ ''pyautogui.press('' @ [SQ] @ ''a'' @ [SQ] @ '')'' @ [NL] @ ''pyautogui.dragTo(0.5, 0.5)'') =
      [''pyautogui.moveTo(0.1, 0.2)'', ''pyautogui.dragTo(0.3, 0.4)'',
       ''pyautogui.press('' @ [SQ] @ ''a'' @ [SQ] @ '')'', ''pyautogui.dragTo(0.5, 0.5)'']"
    by code_simp
  then show ?thesis
    by (simp add: build_actions_def step_moveTo_01_02 step_dragTo_03_04 step_press_a
        step_dragTo_05_05 scan0_def del: append.simps append_Cons)
qed


section \<open>The start of a drag\<close>

lemma scan_lines_append:
  "scan_lines st (xs @ ys) =
     (case scan_lines st xs of Inl e \<Rightarrow> Inl e | Inr st' \<Rightarrow> scan_lines st' ys)"
  by (induction xs arbitrary: st) (auto split: sum.splits)

lemma step_line_effect:
  assumes "step_line st l = Inr st'"
  shows "(\<exists>g xy. anchor_line l g \<and> parse_coords (g ! 1) = Inr xy
            \<and> st' = st\<lparr>start_coords := Some xy\<rparr>)
       \<or> ((\<forall>g. \<not> anchor_line l g) \<and> start_coords st' = start_coords st
            \<and> (\<exists>g ex ey. dragTo_line l g \<and> parse_coords (g ! 0) = Inr (ex, ey)
                 \<and> (case start_coords st of
                       None \<Rightarrow> st' = st
                     | Some (sx, sy) \<Rightarrow> st' = st\<lparr>mouse_action := Some (MDrag sx sy ex ey)\<rparr>)))
       \<or> ((\<forall>g. \<not> anchor_line l g) \<and> start_coords st' = start_coords st
            \<and> (mouse_action st' = mouse_action st
                 \<or> (\<exists>f x y. mouse_action st' = Some (MClick f x y))
                 \<or> (\<exists>x y c. mouse_action st' = Some (MScroll x y c))))"
  using assms
  unfolding step_line_def anchor_line_def dragTo_line_def
  by (auto simp: click_line_def scroll_line_def move_line_def drag_line_def write_line_def
      press_line_def split: option.splits sum.splits prod.splits)

lemma pending_ok_anchor:
  "anchor_line l g \<Longrightarrow> parse_coords (g ! 1) = Inr xy \<Longrightarrow> pending_ok (ls @ [l]) xy"
  unfolding pending_ok_def
  by (rule exI [of _ ls], rule exI [of _ l], rule exI [of _ g], rule exI [of _ "[]"]) simp

lemma pending_ok_snoc:
  assumes "pending_ok ls xy" and "\<forall>g. \<not> anchor_line l g"
  shows "pending_ok (ls @ [l]) xy"
proof -
  from assms(1) obtain pre a ga mid where
    *: "ls = pre @ a # mid" "anchor_line a ga" "parse_coords (ga ! 1) = Inr xy"
       "\<forall>m\<in>set mid. \<forall>g. \<not> anchor_line m g"
    unfolding pending_ok_def by blast
  show ?thesis
    unfolding pending_ok_def
    apply (rule exI [of _ pre], rule exI [of _ a], rule exI [of _ ga], rule exI [of _ "mid @ [l]"])
    using * assms(2) by simp
qed

lemma drag_ok_snoc:
  assumes "drag_ok ls sx sy ex ey"
  shows "drag_ok (ls @ [l]) sx sy ex ey"
proof -
  from assms obtain pre a ga mid d gd post where
    *: "ls = pre @ a # mid @ d # post" "anchor_line a ga" "parse_coords (ga ! 1) = Inr (sx, sy)"
       "\<forall>m\<in>set mid. \<forall>g. \<not> anchor_line m g" "dragTo_line d gd"
       "parse_coords (gd ! 0) = Inr (ex, ey)"
    unfolding drag_ok_def by blast
  show ?thesis
    unfolding drag_ok_def
    apply (rule exI [of _ pre], rule exI [of _ a], rule exI [of _ ga], rule exI [of _ mid],
        rule exI [of _ d], rule exI [of _ gd], rule exI [of _ "post @ [l]"])
    using * by simp
qed

lemma drag_ok_new:
  assumes "pending_ok ls (sx, sy)" and "dragTo_line l g" and "parse_coords (g ! 0) = Inr (ex, ey)"
  shows "drag_ok (ls @ [l]) sx sy ex ey"
proof -
  from assms(1) obtain pre a ga mid where
    *: "ls = pre @ a # mid" "anchor_line a ga" "parse_coords (ga ! 1) = Inr (sx, sy)"
       "\<forall>m\<in>set mid. \<forall>g. \<not> anchor_line m g"
    unfolding pending_ok_def by blast
  show ?thesis
    unfolding drag_ok_def
    apply (rule exI [of _ pre], rule exI [of _ a], rule exI [of _ ga], rule exI [of _ mid],
        rule exI [of _ l], rule exI [of _ g], rule exI [of _ "[]"])
    using * assms(2,3) by simp
qed

lemma scan_lines_invariant:
  assumes "scan_lines scan0 ls = Inr st"
  shows "(\<forall>xy. start_coords st = Some xy \<longrightarrow> pending_ok ls xy)
       \<and> (\<forall>sx sy ex ey. mouse_action st = Some (MDrag sx sy ex ey) \<longrightarrow> drag_ok ls sx sy ex ey)"
  using assms
proof (induction ls arbitrary: st rule: rev_induct)
  case Nil
  then have "st = scan0" by simp
  then show ?case by (simp add: scan0_def)
next
  case (snoc l ls)
  from snoc.prems obtain st0 where
    st0: "scan_lines scan0 ls = Inr st0" and step: "step_line st0 l = Inr st"
    by (auto simp: scan_lines_append split: sum.splits)
  note IH = snoc.IH [OF st0]
  from step_line_effect [OF step] consider
      (anchor) g xy where "anchor_line l g" "parse_coords (g ! 1) = Inr xy"
        "st = st0\<lparr>start_coords := Some xy\<rparr>"
    | (drag) g ex ey where "\<forall>g. \<not> anchor_line l g" "start_coords st = start_coords st0"
        "dragTo_line l g" "parse_coords (g ! 0) = Inr (ex, ey)"
        "case start_coords st0 of None \<Rightarrow> st = st0
          | Some (sx, sy) \<Rightarrow> st = st0\<lparr>mouse_action := Some (MDrag sx sy ex ey)\<rparr>"
    | (other) "\<forall>g. \<not> anchor_line l g" "start_coords st = start_coords st0"
        "mouse_action st = mouse_action st0
          \<or> (\<exists>f x y. mouse_action st = Some (MClick f x y))
          \<or> (\<exists>x y c. mouse_action st = Some (MScroll x y c))"
    by blast
  then show ?case
  proof cases
    case anchor
    with IH show ?thesis
      by (auto intro: pending_ok_anchor drag_ok_snoc)
  next
    case drag
    show ?thesis
    proof (cases "start_coords st0")
      case None
      with drag IH show ?thesis by (auto intro: pending_ok_snoc drag_ok_snoc)
    next
      case (Some p)
      obtain sx sy where p: "p = (sx, sy)" by (cases p)
      with Some drag(5) have st: "st = st0\<lparr>mouse_action := Some (MDrag sx sy ex ey)\<rparr>" by simp
      from IH Some p have "pending_ok ls (sx, sy)" by simp
      from drag_ok_new [OF this drag(3,4)] IH drag(1) Some p show ?thesis
        by (auto simp: st intro: pending_ok_snoc)
    qed
  next
    case other
    with IH show ?thesis by (auto intro: pending_ok_snoc drag_ok_snoc)
  qed
qed

lemma step_line_anchor: "anchor_line l g \<Longrightarrow> step_line st l = move_line st g"
  by (simp add: anchor_line_def step_line_def)

lemma step_line_dragTo: "dragTo_line l g \<Longrightarrow> step_line st l = drag_line st g"
  by (simp add: dragTo_line_def step_line_def)

lemma scan_keeps_start:
  assumes "scan_lines st ls = Inr st'" and "\<forall>m\<in>set ls. \<forall>g. \<not> anchor_line m g"
  shows "start_coords st' = start_coords st"
  using assms
proof (induction ls arbitrary: st)
  case Nil
  then show ?case by simp
next
  case (Cons l ls)
  from Cons.prems(1) obtain st1 where 1: "step_line st l = Inr st1" and 2: "scan_lines st1 ls = Inr st'"
    by (auto split: sum.splits)
  from Cons.prems(2) have na: "\<forall>g. \<not> anchor_line l g" and rest: "\<forall>m\<in>set ls. \<forall>g. \<not> anchor_line m g"
    by simp_all
  from step_line_effect [OF 1] na have "start_coords st1 = start_coords st" by blast
  with Cons.IH [OF 2 rest] show ?case by simp
qed

lemma start_after_anchor:
  assumes "scan_lines st0 (pre @ a # mid) = Inr st" and "anchor_line a ga"
    and "parse_coords (ga ! 1) = Inr xy" and "\<forall>m\<in>set mid. \<forall>g. \<not> anchor_line m g"
  shows "start_coords st = Some xy"
proof -
  from assms(1) obtain st1 st2 where 1: "scan_lines st0 pre = Inr st1"
    and 2: "step_line st1 a = Inr st2" and 3: "scan_lines st2 mid = Inr st"
    by (auto simp: scan_lines_append split: sum.splits)
  from 2 assms(2,3) have "st2 = st1\<lparr>start_coords := Some xy\<rparr>"
    by (simp add: step_line_anchor move_line_def)
  with scan_keeps_start [OF 3 assms(4)] show ?thesis by simp
qed

lemma drag_after_anchor:
  assumes "scan_lines scan0 (pre @ a # mid @ [d]) = Inr st" and "anchor_line a ga"
    and "parse_coords (ga ! 1) = Inr (sx, sy)" and "\<forall>m\<in>set mid. \<forall>g. \<not> anchor_line m g"
    and "dragTo_line d gd" and "parse_coords (gd ! 0) = Inr (ex, ey)"
  shows "mouse_action st = Some (MDrag sx sy ex ey)"
proof -
  have "pre @ a # mid @ [d] = (pre @ a # mid) @ [d]" by simp
  with assms(1) obtain st1 where 1: "scan_lines scan0 (pre @ a # mid) = Inr st1"
    and 2: "step_line st1 d = Inr st"
    by (auto simp only: scan_lines_append scan_lines.simps split: sum.splits)
  from start_after_anchor [OF 1 assms(2,3,4)] have "start_coords st1 = Some (sx, sy)" .
  with 2 assms(5,6) show ?thesis
    by (auto simp: step_line_dragTo drag_line_def)
qed

lemma reuse_example_lines:
  "code_lines (''pyautogui.moveTo(0.1, 0.2)'' @ [NL] @ ''pyautogui.dragTo(0.3, 0.4)'' @ [NL]
      @ ''pyautogui.press('' @ [SQ] @ ''a'' @ [SQ] @ '')'' @ [NL] @ ''pyautogui.dragTo(0.5, 0.5)'') =
   [''pyautogui.moveTo(0.1, 0.2)'', ''pyautogui.dragTo(0.3, 0.4)'',
    ''pyautogui.press('' @ [SQ] @ ''a'' @ [SQ] @ '')'', ''pyautogui.dragTo(0.5, 0.5)'']"
  by code_simp

lemma reuse_example_scan:
  "scan_lines scan0 [''pyautogui.moveTo(0.1, 0.2)'', ''pyautogui.dragTo(0.3, 0.4)'',
      ''pyautogui.press('' @ [SQ] @ ''a'' @ [SQ] @ '')''] =
   Inr \<lparr>mouse_action = Some (MDrag (Some 192) (Some 216) (Some 576) (Some 432)),
        keyboard_action = Some (KPress ''a''),
        start_coords = Some (Some 192, Some 216)\<rparr>"
  by (simp add: step_moveTo_01_02 step_dragTo_03_04 step_press_a scan0_def
      del: append.simps append_Cons)

lemma reuse_example_result:
  "build_actions (''pyautogui.moveTo(0.1, 0.2)'' @ [NL] @ ''pyautogui.dragTo(0.3, 0.4)'' @ [NL]
      @ ''pyautogui.press('' @ [SQ] @ ''a'' @ [SQ] @ '')'' @ [NL] @ ''pyautogui.dragTo(0.5, 0.5)'') =
     Inr (Some (MDrag (Some 192) (Some 216) (Some 960) (Some 540)), Some (KPress ''a''))"
  by (simp add: build_actions_def reuse_example_lines step_moveTo_01_02 step_dragTo_03_04
      step_press_a step_dragTo_05_05 scan0_def del: append.simps append_Cons)

lemma reuse_example_kinds:
  "anchor_line ''pyautogui.moveTo(0.1, 0.2)'' [''moveTo'', ''0.1, 0.2'']"
  "\<not> (\<exists>g. anchor_line ''pyautogui.dragTo(0.3, 0.4)'' g)"
  "\<not> (\<exists>g. anchor_line (''pyautogui.press('' @ [SQ] @ ''a'' @ [SQ] @ '')'') g)"
  "dragTo_line ''pyautogui.dragTo(0.3, 0.4)'' [''0.3, 0.4'']"
  "dragTo_line ''pyautogui.dragTo(0.5, 0.5)'' [''0.5, 0.5'']"
proof -
  show "anchor_line ''pyautogui.moveTo(0.1, 0.2)'' [''moveTo'', ''0.1, 0.2'']" by code_simp
  have "re_match move_re ''pyautogui.dragTo(0.3, 0.4)'' = None" by code_simp
  then show "\<not> (\<exists>g. anchor_line ''pyautogui.dragTo(0.3, 0.4)'' g)"
    by (simp add: anchor_line_def)
  have "re_match move_re (''pyautogui.press('' @ [SQ] @ ''a'' @ [SQ] @ '')'') = None" by code_simp
  then show "\<not> (\<exists>g. anchor_line (''pyautogui.press('' @ [SQ] @ ''a'' @ [SQ] @ '')'') g)"
    by (simp add: anchor_line_def del: append.simps append_Cons)
  show "dragTo_line ''pyautogui.dragTo(0.3, 0.4)'' [''0.3, 0.4'']" by code_simp
  show "dragTo_line ''pyautogui.dragTo(0.5, 0.5)'' [''0.5, 0.5'']" by code_simp
qed

text \<open>
  Claim C3, amended. A drag record is emitted only when a start is pending, and the
  start it uses was parsed from the latest line before the drag-to line, in the same
  code segment, that reached the branch remembering a start (first part). The pending
  start is not consumed: once such a line has been scanned, its coordinates stay the
  pending start over every following line that does not reach that branch, drag-to
  lines included (second part); so a drag-to line that ends the code segment yields the
  drag record from the latest such line before it, whatever lines stand between (third
  part). The scan of each code segment begins without a pending start, so none is
  carried from one step to the next.
\<close>

theorem drag_start_is_latest_anchor:
  "(build_actions src = Inr (Some (MDrag sx sy ex ey), k) \<longrightarrow>
      (\<exists>pre a ga mid d gd post. code_lines src = pre @ a # mid @ d # post
         \<and> anchor_line a ga \<and> parse_coords (ga ! 1) = Inr (sx, sy)
         \<and> (\<forall>m\<in>set mid. \<forall>g. \<not> anchor_line m g)
         \<and> dragTo_line d gd \<and> parse_coords (gd ! 0) = Inr (ex, ey)))
   \<and> (scan_lines scan0 (pre' @ a' # mid') = Inr st \<and> anchor_line a' ga'
        \<and> parse_coords (ga' ! 1) = Inr xy \<and> (\<forall>m\<in>set mid'. \<forall>g. \<not> anchor_line m g) \<longrightarrow>
      start_coords st = Some xy)
   \<and> (code_lines src' = pre' @ a' # mid' @ [d'] \<and> anchor_line a' ga'
        \<and> parse_coords (ga' ! 1) = Inr (sx', sy') \<and> (\<forall>m\<in>set mid'. \<forall>g. \<not> anchor_line m g)
        \<and> dragTo_line d' gd' \<and> parse_coords (gd' ! 0) = Inr (ex', ey')
        \<and> build_actions src' = Inr (m', k') \<longrightarrow>
      m' = Some (MDrag sx' sy' ex' ey'))"
proof (intro conjI impI)
  assume "build_actions src = Inr (Some (MDrag sx sy ex ey), k)"
  then obtain st where st: "scan_lines scan0 (code_lines src) = Inr st"
    and m: "mouse_action st = Some (MDrag sx sy ex ey)"
    by (auto simp: build_actions_def split: sum.splits)
  from scan_lines_invariant [OF st] m have "drag_ok (code_lines src) sx sy ex ey" by blast
  then show "\<exists>pre a ga mid d gd post. code_lines src = pre @ a # mid @ d # post
         \<and> anchor_line a ga \<and> parse_coords (ga ! 1) = Inr (sx, sy)
         \<and> (\<forall>m\<in>set mid. \<forall>g. \<not> anchor_line m g)
         \<and> dragTo_line d gd \<and> parse_coords (gd ! 0) = Inr (ex, ey)"
    unfolding drag_ok_def .
next
  assume "scan_lines scan0 (pre' @ a' # mid') = Inr st \<and> anchor_line a' ga'
        \<and> parse_coords (ga' ! 1) = Inr xy \<and> (\<forall>m\<in>set mid'. \<forall>g. \<not> anchor_line m g)"
  then show "start_coords st = Some xy"
    using start_after_anchor by blast
next
  assume a: "code_lines src' = pre' @ a' # mid' @ [d'] \<and> anchor_line a' ga'
        \<and> parse_coords (ga' ! 1) = Inr (sx', sy') \<and> (\<forall>m\<in>set mid'. \<forall>g. \<not> anchor_line m g)
        \<and> dragTo_line d' gd' \<and> parse_coords (gd' ! 0) = Inr (ex', ey')
        \<and> build_actions src' = Inr (m', k')"
  then obtain st where st: "scan_lines scan0 (pre' @ a' # mid' @ [d']) = Inr st"
    and m: "m' = mouse_action st"
    by (auto simp: build_actions_def split: sum.splits)
  from a drag_after_anchor [OF st] have "mouse_action st = Some (MDrag sx' sy' ex' ey')"
    by blast
  with m show "m' = Some (MDrag sx' sy' ex' ey')" by simp
qed

theorem drag_start_is_latest_anchor_witness:
  "build_actions (''pyautogui.moveTo(0.1, 0.2)'' @ [NL] @ ''pyautogui.dragTo(0.3, 0.4)'') =
     Inr (Some (MDrag (Some 192) (Some 216) (Some 576) (Some 432)), None)
   \<and> (\<exists>pre a ga mid d gd post.
        code_lines (''pyautogui.moveTo(0.1, 0.2)'' @ [NL] @ ''pyautogui.dragTo(0.3, 0.4)'') =
          pre @ a # mid @ d # post
        \<and> anchor_line a ga \<and> parse_coords (ga ! 1) = Inr (Some 192, Some 216)
        \<and> (\<forall>m\<in>set mid. \<forall>g. \<not> anchor_line m g)
        \<and> dragTo_line d gd \<and> parse_coords (gd ! 0) = Inr (Some 576, Some 432))
   \<and> scan_lines scan0 ([] @ ''pyautogui.moveTo(0.1, 0.2)'' #
        [''pyautogui.dragTo(0.3, 0.4)'', ''pyautogui.press('' @ [SQ] @ ''a'' @ [SQ] @ '')'']) =
      Inr \<lparr>mouse_action = Some (MDrag (Some 192) (Some 216) (Some 576) (Some 432)),
           keyboard_action = Some (KPress ''a''),
           start_coords = Some (Some 192, Some 216)\<rparr>
   \<and> anchor_line ''pyautogui.moveTo(0.1, 0.2)'' [''moveTo'', ''0.1, 0.2'']
   \<and> parse_coords ([''moveTo'', ''0.1, 0.2''] ! 1) = Inr (Some 192, Some 216)
   \<and> \<not> (\<exists>g. anchor_line ''pyautogui.dragTo(0.3, 0.4)'' g)
   \<and> \<not> (\<exists>g. anchor_line (''pyautogui.press('' @ [SQ] @ ''a'' @ [SQ] @ '')'') g)
   \<and> start_coords \<lparr>mouse_action = Some (MDrag (Some 192) (Some 216) (Some 576) (Some 432)),
           keyboard_action = Some (KPress ''a''),
           start_coords = Some (Some 192, Some 216)\<rparr> = Some (Some 192, Some 216)
   \<and> code_lines (''pyautogui.moveTo(0.1, 0.2)'' @ [NL] @ ''pyautogui.dragTo(0.3, 0.4)'' @ [NL]
        @ ''pyautogui.press('' @ [SQ] @ ''a'' @ [SQ] @ '')'' @ [NL] @ ''pyautogui.dragTo(0.5, 0.5)'') =
      [] @ ''pyautogui.moveTo(0.1, 0.2)'' #
        [''pyautogui.dragTo(0.3, 0.4)'', ''pyautogui.press('' @ [SQ] @ ''a'' @ [SQ] @ '')'']
        @ [''pyautogui.dragTo(0.5, 0.5)'']
   \<and> dragTo_line ''pyautogui.dragTo(0.5, 0.5)'' [''0.5, 0.5'']
   \<and> parse_coords ([''0.5, 0.5''] ! 0) = Inr (Some 960, Some 540)
   \<and> build_actions (''pyautogui.moveTo(0.1, 0.2)'' @ [NL] @ ''pyautogui.dragTo(0.3, 0.4)'' @ [NL]
        @ ''pyautogui.press('' @ [SQ] @ ''a'' @ [SQ] @ '')'' @ [NL] @ ''pyautogui.dragTo(0.5, 0.5)'') =
      Inr (Some (MDrag (Some 192) (Some 216) (Some 960) (Some 540)), Some (KPress ''a''))"
proof -
  let ?l1 = "''pyautogui.moveTo(0.1, 0.2)''" and ?l2 = "''pyautogui.dragTo(0.3, 0.4)''"
  let ?l3 = "''pyautogui.press('' @ [SQ] @ ''a'' @ [SQ] @ '')''" and ?l4 = "''pyautogui.dragTo(0.5, 0.5)''"
  let ?src = "?l1 @ [NL] @ ?l2"
  let ?src' = "?l1 @ [NL] @ ?l2 @ [NL] @ ?l3 @ [NL] @ ?l4"
  let ?st = "\<lparr>mouse_action = Some (MDrag (Some 192) (Some 216) (Some 576) (Some 432)),
           keyboard_action = Some (KPress ''a''),
           start_coords = Some (Some 192, Some 216)\<rparr>"
  have "code_lines ?src = [?l1, ?l2]" by code_simp
  then have b: "build_actions ?src =
      Inr (Some (MDrag (Some 192) (Some 216) (Some 576) (Some 432)), None)"
    by (simp add: build_actions_def step_moveTo_01_02 step_dragTo_03_04 scan0_def)
  have na: "\<forall>m\<in>set [?l2, ?l3]. \<forall>g. \<not> anchor_line m g"
    using reuse_example_kinds(2,3) by (simp del: append.simps append_Cons)
  have cl: "code_lines ?src' = [] @ ?l1 # [?l2, ?l3] @ [?l4]"
    using reuse_example_lines by (simp del: append.simps append_Cons)
  have sc: "scan_lines scan0 ([] @ ?l1 # [?l2, ?l3]) = Inr ?st"
    using reuse_example_scan by simp
  have p1: "parse_coords ([''moveTo'', ''0.1, 0.2''] ! 1) = Inr (Some 192, Some 216)"
    by (simp add: parse_01_02)
  have p2: "parse_coords ([''0.5, 0.5''] ! 0) = Inr (Some 960, Some 540)"
    by (simp add: parse_05_05)
  note T = drag_start_is_latest_anchor
    [of ?src "Some 192" "Some 216" "Some 576" "Some 432" None
       "[]" ?l1 "[?l2, ?l3]" ?st "[''moveTo'', ''0.1, 0.2'']" "(Some 192, Some 216)"
       ?src' ?l4 "Some 192" "Some 216" "[''0.5, 0.5'']" "Some 960" "Some 540"
       "Some (MDrag (Some 192) (Some 216) (Some 960) (Some 540))" "Some (KPress ''a'')"]
  from T [THEN conjunct1] b have A: "\<exists>pre a ga mid d gd post.
        code_lines ?src = pre @ a # mid @ d # post
        \<and> anchor_line a ga \<and> parse_coords (ga ! 1) = Inr (Some 192, Some 216)
        \<and> (\<forall>m\<in>set mid. \<forall>g. \<not> anchor_line m g)
        \<and> dragTo_line d gd \<and> parse_coords (gd ! 0) = Inr (Some 576, Some 432)"
    by blast
  from T [THEN conjunct2, THEN conjunct1] sc reuse_example_kinds(1) p1 na
  have B: "start_coords ?st = Some (Some 192, Some 216)" by blast
  from T [THEN conjunct2, THEN conjunct2] cl reuse_example_kinds(1,5) p1 p2 na
    reuse_example_result
  have C: "Some (MDrag (Some 192) (Some 216) (Some 960) (Some 540)) =
      Some (MDrag (Some 192) (Some 216) (Some 960) (Some 540))"
    by (simp only: append_assoc simp_thms)
  show ?thesis
    using b A sc reuse_example_kinds p1 p2 B C cl reuse_example_result
    by (simp only: append_assoc simp_thms)
qed

text \<open>
  A click line matches the click family, the first branch of the chain, so the only
  lines that reach the branch remembering a start are move-to lines.
\<close>

lemma ms_args_tail:
  "ms (seq args_re) s = ms (Cat (Lit ''('') (Cat (Grp (Rep True 0 (NoneOf '')''))) (Lit '')''))) s"
  by (simp add: args_re_def)

lemma click_shadows_anchor:
  assumes "anchor_line l g"
  shows "g ! 0 = ''moveTo''"
proof -
  define T where "T = Cat (Lit ''('') (Cat (Grp (Rep True 0 (NoneOf '')''))) (Lit '')''))"
  have c: "click_re = Cat (Lit ''pyautogui.'')
      (Cat (Grp (Or (Lit ''click'') (Or (Lit ''rightClick'') (Lit ''doubleClick'')))) T)"
    by (simp add: click_re_def args_re_def T_def)
  have m: "move_re = Cat (Lit ''pyautogui.'') (Cat (Grp (Or (Lit ''moveTo'') (Lit ''click''))) T)"
    by (simp add: move_re_def args_re_def T_def)
  from assms have 1: "ms click_re l = []" and 2: "re_match move_re l = Some g"
    by (auto simp: anchor_line_def re_match_def split: list.splits)
  show ?thesis
  proof (cases "prefix ''pyautogui.'' l")
    case False
    with 2 show ?thesis by (simp add: m re_match_def)
  next
    case True
    let ?r = "drop (length ''pyautogui.'') l"
    show ?thesis
    proof (cases "prefix ''click'' ?r")
      case False
      with True 2 show ?thesis
        by (auto simp: m re_match_def split: list.splits if_splits)
    next
      case pc: True
      then have "\<not> prefix ''moveTo'' ?r"
        by (auto simp: prefix_def)
      moreover from 1 True pc have "ms T (drop (length ''click'') ?r) = []"
        by (auto simp: c split: if_splits)
      ultimately show ?thesis using 2 True pc
        by (auto simp: m re_match_def split: list.splits if_splits)
    qed
  qed
qed

section \<open>Typed text\<close>






lemma press_re_unfold: "press_re = Cat (Lit ''pyautogui.press'') (seq args_re)"
  by (simp add: press_re_def seq_Cons args_re_nonempty)













section \<open>The number group\<close>












section \<open>Characters of numeric literals\<close>










section \<open>The first bare pair of an argument list\<close>









section \<open>Integer literals\<close>











section \<open>Scroll calls with positional coordinates\<close>












section \<open>Sections of a response\<close>
































section \<open>Steps and tasks\<close>

text \<open>
  Claim C6: when the code segment extracted from the response contains the termination
  sentinel \<open>computer.terminate\<close>, the action description of the step that
  \<open>process_task\<close> emits for that line is \<open>DONE\<close>, whatever the Action header held; the code
  of the step is the extracted segment.
\<close>

theorem terminate_forces_done:
  assumes "process_row tid r = Inr st"
    and "contains ''computer.terminate'' (snd (snd (extract_sections (response r))))"
  shows "action st = ''DONE'' \<and> code st = snd (snd (extract_sections (response r)))"
  using assms
  by (auto simp: process_row_def split: prod.splits sum.splits)

theorem terminate_forces_done_witness:
  "process_row ''task7''
      \<lparr>step_num = 3,
       response = ''## Action:'' @ [NL] @ ''Click the button'' @ [NL] @ ''```python'' @ [NL]
         @ ''computer.terminate(status=1)'' @ [NL] @ ''```'',
       screenshot_file = ''s3.png''\<rparr>
    = Inr \<lparr>stepNum = 3, thought = [], action = ''DONE'',
         code = ''computer.terminate(status=1)'',
         response_text = ''## Action:'' @ [NL] @ ''Click the button'' @ [NL] @ ''```python'' @ [NL]
           @ ''computer.terminate(status=1)'' @ [NL] @ ''```'',
         image_path = ''./static/trajs/task7/s3.png'',
         mouseAction = None, keyboardAction = None\<rparr>
   \<and> contains ''computer.terminate'' ''computer.terminate(status=1)''
   \<and> action \<lparr>stepNum = 3, thought = [], action = ''DONE'',
         code = ''computer.terminate(status=1)'',
         response_text = ''## Action:'' @ [NL] @ ''Click the button'' @ [NL] @ ''```python'' @ [NL]
           @ ''computer.terminate(status=1)'' @ [NL] @ ''```'',
         image_path = ''./static/trajs/task7/s3.png'',
         mouseAction = None, keyboardAction = None\<rparr> = ''DONE''"
proof -
  let ?resp = "''## Action:'' @ [NL] @ ''Click the button'' @ [NL] @ ''```python'' @ [NL]
         @ ''computer.terminate(status=1)'' @ [NL] @ ''```''"
  let ?r = "\<lparr>step_num = 3, response = ?resp, screenshot_file = ''s3.png''\<rparr>"
  let ?st = "\<lparr>stepNum = 3, thought = [], action = ''DONE'',
         code = ''computer.terminate(status=1)'',
         response_text = ?resp,
         image_path = ''./static/trajs/task7/s3.png'',
         mouseAction = None, keyboardAction = None\<rparr>"
  have e: "extract_sections ?resp = ([], ''Click the button'', ''computer.terminate(status=1)'')"
    by code_simp
  have b: "build_actions ''computer.terminate(status=1)'' = Inr (None, None)"
    by code_simp
  have c: "contains ''computer.terminate'' ''computer.terminate(status=1)''"
    by code_simp
  have s: "strip ?resp = ?resp" by code_simp
  have p: "process_row ''task7'' ?r = Inr ?st"
    by (simp add: process_row_def e b c s del: append.simps append_Cons)
  have "contains ''computer.terminate'' (snd (snd (extract_sections (response ?r))))"
    using c by (simp add: e del: append.simps append_Cons)
  from terminate_forces_done [OF p this] p c show ?thesis
    by (simp del: append.simps append_Cons)
qed

text \<open>
  Against claim C9 as stated: a configuration that supplies the empty string as
  \<open>instruction\<close> and a \<open>prompt\<close> gets the trimmed prompt, not the instruction it supplies.
\<close>

theorem empty_instruction_counterexample:
  "process_task ''t1'' (Some [''instruction'' \<mapsto> JStr [], ''prompt'' \<mapsto> JStr '' open the file '']) [] =
     Inr \<lparr>task_id = ''t1'', steps = [], instruction = JStr ''open the file''\<rparr>"
proof -
  have "strip '' open the file '' = ''open the file''" by code_simp
  then show ?thesis
    by (simp add: process_task_def load_instruction_def prompt_stripped_def)
qed

text \<open>
  Claim C9, amended: a configuration that supplies a non-empty string as \<open>instruction\<close>
  gives the task that string as instruction; when \<open>instruction\<close> is absent or the empty
  string and \<open>prompt\<close> is a string, the instruction is the trimmed prompt; without a
  configuration file it is the empty string. In each case the task is emitted when the
  step log is processed without error.
\<close>

theorem instruction_of_task:
  "(cfg ''instruction'' = Some (JStr s) \<and> s \<noteq> [] \<longrightarrow>
      process_task tid (Some cfg) rows =
        (case process_rows tid rows of
           Inl e \<Rightarrow> Inl e
         | Inr sts \<Rightarrow> Inr \<lparr>task_id = tid, steps = sts, instruction = JStr s\<rparr>))
   \<and> ((cfg ''instruction'' = None \<or> cfg ''instruction'' = Some (JStr [])) \<and>
        cfg ''prompt'' = Some (JStr p) \<longrightarrow>
      process_task tid (Some cfg) rows =
        (case process_rows tid rows of
           Inl e \<Rightarrow> Inl e
         | Inr sts \<Rightarrow> Inr \<lparr>task_id = tid, steps = sts, instruction = JStr (strip p)\<rparr>))
   \<and> process_task tid None rows =
        (case process_rows tid rows of
           Inl e \<Rightarrow> Inl e
         | Inr sts \<Rightarrow> Inr \<lparr>task_id = tid, steps = sts, instruction = JStr []\<rparr>)"
  by (auto simp: process_task_def load_instruction_def prompt_stripped_def)

theorem instruction_of_task_witness:
  "[''instruction'' \<mapsto> JStr ''Open the file'', ''prompt'' \<mapsto> JStr '' other ''] ''instruction''
      = Some (JStr ''Open the file'')
   \<and> ''Open the file'' \<noteq> []
   \<and> process_task ''task7''
        (Some [''instruction'' \<mapsto> JStr ''Open the file'', ''prompt'' \<mapsto> JStr '' other '']) []
      = Inr \<lparr>task_id = ''task7'', steps = [], instruction = JStr ''Open the file''\<rparr>
   \<and> (Map.empty(''prompt'' \<mapsto> JStr '' other '')) ''instruction'' = None
   \<and> (Map.empty(''prompt'' \<mapsto> JStr '' other '')) ''prompt'' = Some (JStr '' other '')
   \<and> process_task ''task7'' (Some (Map.empty(''prompt'' \<mapsto> JStr '' other ''))) []
      = Inr \<lparr>task_id = ''task7'', steps = [], instruction = JStr ''other''\<rparr>
   \<and> process_task ''task7'' None []
      = Inr \<lparr>task_id = ''task7'', steps = [], instruction = JStr []\<rparr>"
proof -
  have s: "strip '' other '' = ''other''" by code_simp
  show ?thesis
    using instruction_of_task [of "[''instruction'' \<mapsto> JStr ''Open the file'', ''prompt'' \<mapsto> JStr '' other '']"
        "''Open the file''" "''task7''" "[]" "'' other ''"]
      instruction_of_task [of "Map.empty(''prompt'' \<mapsto> JStr '' other '')"
        "''Open the file''" "''task7''" "[]" "'' other ''"]
    by (simp add: s)
qed

end
